theory Spec2Isabelle
  imports Main
begin

section \<open>process\_fep\_benchmark.py: the data model\<close>

text \<open>
  The script \<^verbatim>\<open>analysis_scripts/process_fep_benchmark.py\<close> has one function, \<^verbatim>\<open>main\<close>.
  It lists the entries of \<^verbatim>\<open>upper_dir\<close>, collects result files from the entries that are
  directories, hands them to a parser of the module \<^verbatim>\<open>analysis_functions\<close> (imported as
  \<^verbatim>\<open>af\<close>), corrects one compound count in the parser's result, and prints a summary.

  Everything \<^verbatim>\<open>main\<close> does to the outside is made explicit: the filesystem is a value that
  is read, and each read, each printed line and each call into \<^verbatim>\<open>af\<close> is appended to a
  trace, in program order. Exceptions are values of a sum type.
\<close>

subsection \<open>Filesystem\<close>

text \<open>
  A path is a string. The filesystem maps a path to what is found there: a file, or a
  directory with the names of its entries in the order the operating system lists them.
  A path that is not mapped does not exist.
\<close>

datatype node = File | Dir "string list"

type_synonym filesystem = "string \<rightharpoonup> node"

subsection \<open>Exceptions\<close>

text \<open>
  \<^verbatim>\<open>NameError v\<close>: the local variable \<^verbatim>\<open>v\<close> is read before it is bound (Python raises
  \<^verbatim>\<open>UnboundLocalError\<close>, a subclass of \<^verbatim>\<open>NameError\<close>). \<^verbatim>\<open>IndexError\<close>: a list is indexed
  out of range. \<^verbatim>\<open>TypeError\<close>: a list is indexed with \<^verbatim>\<open>None\<close>. \<^verbatim>\<open>Exception m\<close>: the
  \<^verbatim>\<open>raise Exception(m)\<close> of line 83. \<^verbatim>\<open>Raised m\<close>: whatever a parser of \<^verbatim>\<open>af\<close> raises.
\<close>

datatype py_error =
    NameError string
  | IndexError
  | TypeError
  | Exception string
  | Raised string

subsection \<open>Command line\<close>

text \<open>
  The namespace \<^verbatim>\<open>args\<close> that argparse returns. \<^verbatim>\<open>-e/--ext\<close> has the choices
  \<^verbatim>\<open>'fmp'\<close> and \<^verbatim>\<open>'csv'\<close> and no default, so \<^verbatim>\<open>args.ext\<close> is \<^verbatim>\<open>None\<close> when the option
  is omitted.
\<close>

record args =
  upper_dir :: string
  ext :: "string option"
  latex_tables :: bool

subsection \<open>The parser's result\<close>

text \<open>
  \<^verbatim>\<open>results\<close> is a dictionary. \<^verbatim>\<open>main\<close> reads the keys \<^verbatim>\<open>'entries'\<close> (the names of the
  data sets, a list of strings) and \<^verbatim>\<open>'number of compounds'\<close> (one count for each data
  set); all other keys are kept as a map to values \<^verbatim>\<open>main\<close> never looks at.
\<close>

record 'v results =
  entries :: "string list"
  number_of_compounds :: "int list"
  other_keys :: "string \<rightharpoonup> 'v"

subsection \<open>Trace and world\<close>

datatype 'v event =
    Glob string
  | IsDir string
  | ParseFepData "string list"
  | ParseFepDataFromCsv "string list"
  | SummarizeFepError "'v results"
  | PrintLatexTable "string list"
  | Print string

record 'v world =
  fs :: filesystem
  trace :: "'v event list"

definition emit :: "'v event list \<Rightarrow> 'v world \<Rightarrow> 'v world" where
  "emit es w = w\<lparr>trace := trace w @ es\<rparr>"

subsection \<open>The collaborator \<^verbatim>\<open>analysis_functions\<close>\<close>

text \<open>
  The module \<^verbatim>\<open>analysis_functions\<close> is not part of the script. Its two parsers are
  parameters: each maps the list of files to the results dictionary, or raises. (Both
  return a pair \<^verbatim>\<open>results, diffs\<close>; \<^verbatim>\<open>main\<close> never uses \<^verbatim>\<open>diffs\<close>, which is left out.)
  \<^verbatim>\<open>summarize_fep_error\<close> and \<^verbatim>\<open>print_latex_table\<close> return nothing \<^verbatim>\<open>main\<close> uses; a call
  of either is recorded in the trace with its argument.
\<close>

record 'v af =
  parse_fep_data :: "string list \<Rightarrow> py_error + 'v results"
  parse_fep_data_from_csv :: "string list \<Rightarrow> py_error + 'v results"

section \<open>Reading the filesystem\<close>

text \<open>
  \<^verbatim>\<open>glob(f'{d}/*{s}')\<close> for a directory path \<^verbatim>\<open>d\<close> and a suffix \<^verbatim>\<open>s\<close> without wildcard
  characters: the names listed in \<^verbatim>\<open>d\<close> that the pattern \<^verbatim>\<open>*s\<close> matches, each joined to
  \<^verbatim>\<open>d\<close> with a slash. The pattern matches a name that ends with \<^verbatim>\<open>s\<close>; as the pattern
  does not begin with a dot, \<^verbatim>\<open>glob\<close> leaves out every name that begins with a dot. If
  \<^verbatim>\<open>d\<close> is not a directory the result is empty. (Paths are taken to contain no wildcard
  character and \<^verbatim>\<open>upper_dir\<close> to have no trailing slash.)
\<close>

definition ishidden :: "string \<Rightarrow> bool" where
  "ishidden name = (case name of [] \<Rightarrow> False | c # _ \<Rightarrow> c = CHR ''.'')"

definition endswith :: "string \<Rightarrow> string \<Rightarrow> bool" where
  "endswith name s = (length s \<le> length name \<and> drop (length name - length s) name = s)"

definition listdir :: "filesystem \<Rightarrow> string \<Rightarrow> string list" where
  "listdir f d = (case f d of Some (Dir names) \<Rightarrow> names | _ \<Rightarrow> [])"

definition glob1 :: "filesystem \<Rightarrow> string \<Rightarrow> string \<Rightarrow> string list" where
  "glob1 f d s = filter (\<lambda>name. endswith name s) (filter (\<lambda>name. \<not> ishidden name) (listdir f d))"

definition join :: "string \<Rightarrow> string \<Rightarrow> string" where
  "join d name = d @ ''/'' @ name"

definition glob_paths :: "filesystem \<Rightarrow> string \<Rightarrow> string \<Rightarrow> string list" where
  "glob_paths f d s = map (join d) (glob1 f d s)"

definition isdir :: "filesystem \<Rightarrow> string \<Rightarrow> bool" where
  "isdir f p = (case f p of Some (Dir _) \<Rightarrow> True | _ \<Rightarrow> False)"

definition py_glob :: "string \<Rightarrow> string \<Rightarrow> 'v world \<Rightarrow> string list \<times> 'v world" where
  "py_glob d s w = (glob_paths (fs w) d s, emit [Glob (d @ ''/*'' @ s)] w)"

definition py_isdir :: "string \<Rightarrow> 'v world \<Rightarrow> bool \<times> 'v world" where
  "py_isdir p w = (isdir (fs w) p, emit [IsDir p] w)"

text \<open>The f-string \<^verbatim>\<open>f'{args.ext}'\<close>: \<^verbatim>\<open>None\<close> is formatted as the text \<^verbatim>\<open>None\<close>.\<close>

definition format_ext :: "string option \<Rightarrow> string" where
  "format_ext e = (case e of None \<Rightarrow> ''None'' | Some s \<Rightarrow> s)"

section \<open>Lines 72 to 75: collecting the files\<close>

fun collect_loop :: "string \<Rightarrow> string list \<Rightarrow> string list \<Rightarrow> 'v world \<Rightarrow> string list \<times> 'v world" where
  "collect_loop s [] files w = (files, w)"
| "collect_loop s (entry # rest) files w =
     (case py_isdir entry w of
        (True, w1) \<Rightarrow> (case py_glob entry s w1 of (found, w2) \<Rightarrow> collect_loop s rest (files @ found) w2)
      | (False, w1) \<Rightarrow> collect_loop s rest files w1)"

definition collect_files :: "args \<Rightarrow> 'v world \<Rightarrow> string list \<times> 'v world" where
  "collect_files a w =
     (case py_glob (upper_dir a) [] w of
        (found, w1) \<Rightarrow> collect_loop (format_ext (ext a)) found [] w1)"

section \<open>Lines 77 to 83: the delegated parsing\<close>

definition ext_message :: "string option \<Rightarrow> string" where
  \<open>ext_message e =
     ''Only "fmp" and "csv" are accessible file extenstions. You have entered '' @ format_ext e @ ''.''\<close>

definition parse_step :: "'v af \<Rightarrow> args \<Rightarrow> string list \<Rightarrow> 'v world \<Rightarrow> (py_error + 'v results) \<times> 'v world" where
  "parse_step m a files w =
     (if ext a = Some ''fmp'' then (parse_fep_data m files, emit [ParseFepData files] w)
      else if ext a = Some ''csv'' then (parse_fep_data_from_csv m files, emit [ParseFepDataFromCsv files] w)
      else (Inl (Exception (ext_message (ext a))), w))"

section \<open>Lines 85 to 95: the thrombin correction\<close>

definition throm_name_waterset :: string where
  "throm_name_waterset = ''throm_nozob_hip75_sbmcorr_out''"

definition throm_name_jacsset :: string where
  "throm_name_jacsset = ''thrombin_core_out''"

text \<open>
  The two index variables are assigned only inside the loop. A local variable is either
  unbound or bound to a value, and the value is \<^verbatim>\<open>None\<close> or an index.
\<close>

datatype pyval = PyNone | PyInt nat

datatype var = Unbound | Bound pyval

text \<open>
  \<^verbatim>\<open>for i, name in enumerate(results['entries'])\<close>, from position \<^verbatim>\<open>i\<close> on; the pair is
  \<^verbatim>\<open>throm_name_waterset_ind\<close>, \<^verbatim>\<open>throm_name_jacsset_ind\<close>.
\<close>

fun scan_entries :: "nat \<Rightarrow> string list \<Rightarrow> var \<times> var \<Rightarrow> var \<times> var" where
  "scan_entries i [] (wv, jv) = (wv, jv)"
| "scan_entries i (name # rest) (wv, jv) =
     scan_entries (Suc i) rest
       (if name = throm_name_waterset then Bound (PyInt i) else wv,
        if name = throm_name_jacsset then Bound (PyInt i) else jv)"

text \<open>
  Line 95, \<^verbatim>\<open>nums[w] -= nums[j]\<close> on the list \<^verbatim>\<open>results['number of compounds']\<close>: both
  elements are read, then the difference is stored at \<^verbatim>\<open>w\<close>.
\<close>

definition subtract_compounds :: "'v results \<Rightarrow> pyval \<Rightarrow> pyval \<Rightarrow> py_error + 'v results" where
  "subtract_compounds r wi ji =
     (case (wi, ji) of
        (PyInt w, PyInt j) \<Rightarrow>
          (let nums = number_of_compounds r in
           if w < length nums \<and> j < length nums
           then Inr (r\<lparr>number_of_compounds := nums[w := nums ! w - nums ! j]\<rparr>)
           else Inl IndexError)
      | _ \<Rightarrow> Inl TypeError)"

text \<open>
  Line 94: \<^verbatim>\<open>if throm_name_waterset_ind is not None and throm_name_jacsset_ind is not None\<close>.
  Reading an unbound variable raises; \<^verbatim>\<open>and\<close> reads the second variable only when the
  first test is true.
\<close>

definition guarded_correction :: "'v results \<Rightarrow> var \<times> var \<Rightarrow> py_error + 'v results" where
  "guarded_correction r vs =
     (case fst vs of
        Unbound \<Rightarrow> Inl (NameError ''throm_name_waterset_ind'')
      | Bound wi \<Rightarrow>
          if wi \<noteq> PyNone
          then (case snd vs of
                  Unbound \<Rightarrow> Inl (NameError ''throm_name_jacsset_ind'')
                | Bound ji \<Rightarrow> if ji \<noteq> PyNone then subtract_compounds r wi ji else Inr r)
          else Inr r)"

definition correct_thrombin :: "'v results \<Rightarrow> py_error + 'v results" where
  "correct_thrombin r = guarded_correction r (scan_entries 0 (entries r) (Unbound, Unbound))"

section \<open>Lines 97 to 116: printing\<close>

definition print_summary :: "'v results \<Rightarrow> 'v world \<Rightarrow> 'v world" where
  "print_summary r w =
     emit [Print ''FEP+ benchmark summary'', Print ''-----------------------'',
           SummarizeFepError r, Print ''''] w"

fun latex_loop :: "string \<Rightarrow> string list \<Rightarrow> 'v world \<Rightarrow> 'v world" where
  "latex_loop s [] w = w"
| "latex_loop s (entry # rest) w =
     (case py_isdir entry w of
        (True, w1) \<Rightarrow>
          (case py_glob entry s w1 of
             (files, w2) \<Rightarrow>
               if length files \<ge> 1
               then latex_loop s rest (emit [Print entry, PrintLatexTable files, Print '''', Print ''''] w2)
               else latex_loop s rest w2)
      | (False, w1) \<Rightarrow> latex_loop s rest w1)"

definition latex_notice :: string where
  "latex_notice = ''Latex summary tables can only printed for FMP results files.''"

definition print_tables :: "args \<Rightarrow> 'v world \<Rightarrow> 'v world" where
  "print_tables a w =
     (if latex_tables a \<and> ext a = Some ''fmp''
      then (let w1 = emit [Print ''Individual set summaries'', Print ''------------------------''] w in
            case py_glob (upper_dir a) [] w1 of
              (found, w2) \<Rightarrow> latex_loop (format_ext (ext a)) found w2)
      else if latex_tables a \<and> ext a \<noteq> Some ''fmp''
      then emit [Print latex_notice] w
      else w)"

section \<open>The function \<^verbatim>\<open>main\<close>, from the parsed arguments on\<close>

definition main :: "'v af \<Rightarrow> args \<Rightarrow> 'v world \<Rightarrow> (py_error + unit) \<times> 'v world" where
  "main m a w =
     (case collect_files a w of
        (files, w1) \<Rightarrow>
          (case parse_step m a files w1 of
             (Inl e, w2) \<Rightarrow> (Inl e, w2)
           | (Inr r, w2) \<Rightarrow>
               (case correct_thrombin r of
                  Inl e \<Rightarrow> (Inl e, w2)
                | Inr r' \<Rightarrow> (Inr (), print_tables a (print_summary r' w2)))))"

section \<open>Observing a run\<close>

text \<open>The events a step adds to the trace: what the later world has beyond the earlier.\<close>

definition new_events :: "'v world \<Rightarrow> 'v world \<Rightarrow> 'v event list" where
  "new_events w w' = drop (length (trace w)) (trace w')"

fun is_read :: "'v event \<Rightarrow> bool" where
  "is_read (Glob _) = True"
| "is_read (IsDir _) = True"
| "is_read _ = False"

fun is_parse_call :: "'v event \<Rightarrow> bool" where
  "is_parse_call (ParseFepData _) = True"
| "is_parse_call (ParseFepDataFromCsv _) = True"
| "is_parse_call _ = False"

fun is_summary_call :: "'v event \<Rightarrow> bool" where
  "is_summary_call (SummarizeFepError _) = True"
| "is_summary_call _ = False"

fun is_table_call :: "'v event \<Rightarrow> bool" where
  "is_table_call (PrintLatexTable _) = True"
| "is_table_call _ = False"

fun is_print :: "'v event \<Rightarrow> bool" where
  "is_print (Print _) = True"
| "is_print _ = False"

section \<open>Sample inputs\<close>

text \<open>
  A benchmark directory \<^verbatim>\<open>up\<close> with a group \<^verbatim>\<open>g1\<close> (two result files, a hidden file and
  a nested directory), a plain file, a hidden directory and an empty group.
\<close>

definition sample_fs :: filesystem where
  "sample_fs = map_of
     [(''up'', Dir [''g1'', ''n.txt'', ''.h'', ''g2'']),
      (''up/g1'', Dir [''a.fmp'', ''b.csv'', ''old'', ''.c.fmp'']),
      (''up/g1/a.fmp'', File),
      (''up/g1/b.csv'', File),
      (''up/g1/.c.fmp'', File),
      (''up/g1/old'', Dir [''d.fmp'']),
      (''up/g1/old/d.fmp'', File),
      (''up/n.txt'', File),
      (''up/.h'', Dir [''s.fmp'']),
      (''up/.h/s.fmp'', File),
      (''up/g2'', Dir [])]"

text \<open>A directory whose only group is hidden.\<close>

definition hidden_fs :: filesystem where
  "hidden_fs = map_of
     [(''up'', Dir [''.h'']),
      (''up/.h'', Dir [''a.fmp'']),
      (''up/.h/a.fmp'', File)]"

text \<open>A parse result in which both thrombin data sets occur twice.\<close>

definition sample_results :: "nat results" where
  "sample_results =
     \<lparr>entries = [throm_name_waterset, throm_name_jacsset, throm_name_waterset, throm_name_jacsset],
      number_of_compounds = [10, 3, 20, 5],
      other_keys = [''mue'' \<mapsto> 7]\<rparr>"

text \<open>A parse result without the water-displacement set.\<close>

definition jacs_only_results :: "nat results" where
  "jacs_only_results =
     \<lparr>entries = [''bace_out'', throm_name_jacsset],
      number_of_compounds = [36, 11],
      other_keys = Map.empty\<rparr>"

definition sample_af :: "nat af" where
  "sample_af =
     \<lparr>parse_fep_data = (\<lambda>files. Inr sample_results),
      parse_fep_data_from_csv = (\<lambda>files. Inr sample_results)\<rparr>"

definition jacs_only_af :: "nat af" where
  "jacs_only_af =
     \<lparr>parse_fep_data = (\<lambda>files. Inr jacs_only_results),
      parse_fep_data_from_csv = (\<lambda>files. Inr jacs_only_results)\<rparr>"

definition sample_world :: "nat world" where
  "sample_world = \<lparr>fs = sample_fs, trace = []\<rparr>"

definition hidden_world :: "nat world" where
  "hidden_world = \<lparr>fs = hidden_fs, trace = []\<rparr>"

section \<open>The trace and the loops\<close>

lemma fs_emit [simp]: "fs (emit es w) = fs w"
  by (simp add: emit_def)

lemma trace_emit [simp]: "trace (emit es w) = trace w @ es"
  by (simp add: emit_def)

lemma emit_emit [simp]: "emit bs (emit as w) = emit (as @ bs) w"
  by (simp add: emit_def)

lemma emit_Nil [simp]: "emit [] w = w"
  by (simp add: emit_def)

lemma collect_loop_eq:
  "collect_loop s es files w =
     (files @ concat (map (\<lambda>e. if isdir (fs w) e then glob_paths (fs w) e s else []) es),
      emit (concat (map (\<lambda>e. IsDir e # (if isdir (fs w) e then [Glob (e @ ''/*'' @ s)] else [])) es)) w)"
proof (induction es arbitrary: files w)
  case Nil
  show ?case by simp
next
  case (Cons e es)
  show ?case
  proof (cases "isdir (fs w) e")
    case True
    then show ?thesis
      by (simp add: py_isdir_def py_glob_def Cons.IH cong: if_cong)
  next
    case False
    then show ?thesis
      by (simp add: py_isdir_def Cons.IH cong: if_cong)
  qed
qed

lemma latex_loop_eq:
  "latex_loop s es w =
     emit (concat (map (\<lambda>e. IsDir e #
        (if isdir (fs w) e
         then Glob (e @ ''/*'' @ s) #
              (if glob_paths (fs w) e s \<noteq> []
               then [Print e, PrintLatexTable (glob_paths (fs w) e s), Print '''', Print '''']
               else [])
         else [])) es)) w"
proof (induction es arbitrary: w)
  case Nil
  show ?case by simp
next
  case (Cons e es)
  show ?case
  proof (cases "isdir (fs w) e")
    case True
    then show ?thesis
      by (cases "glob_paths (fs w) e s") (simp_all add: py_isdir_def py_glob_def Cons.IH cong: if_cong)
  next
    case False
    then show ?thesis
      by (simp add: py_isdir_def Cons.IH cong: if_cong)
  qed
qed

section \<open>The scan of the entries\<close>

lemma scan_fst_absent:
  "throm_name_waterset \<notin> set es \<Longrightarrow> fst (scan_entries i es (wv, jv)) = wv"
  by (induction es arbitrary: i wv jv) auto

lemma scan_snd_absent:
  "throm_name_jacsset \<notin> set es \<Longrightarrow> snd (scan_entries i es (wv, jv)) = jv"
  by (induction es arbitrary: i wv jv) auto

lemma scan_fst_last:
  "throm_name_waterset \<in> set es \<Longrightarrow>
     \<exists>k<length es. es ! k = throm_name_waterset \<and>
        (\<forall>m<length es. k < m \<longrightarrow> es ! m \<noteq> throm_name_waterset) \<and>
        fst (scan_entries i es (wv, jv)) = Bound (PyInt (i + k))"
proof (induction es arbitrary: i wv jv)
  case Nil
  then show ?case by simp
next
  case (Cons e es)
  let ?wv = "if e = throm_name_waterset then Bound (PyInt i) else wv"
  let ?jv = "if e = throm_name_jacsset then Bound (PyInt i) else jv"
  have step: "scan_entries i (e # es) (wv, jv) = scan_entries (Suc i) es (?wv, ?jv)"
    by simp
  show ?case
  proof (cases "throm_name_waterset \<in> set es")
    case True
    from Cons.IH [OF True, of "Suc i" ?wv ?jv]
    obtain k where k: "k < length es" "es ! k = throm_name_waterset"
      "\<forall>m<length es. k < m \<longrightarrow> es ! m \<noteq> throm_name_waterset"
      "fst (scan_entries (Suc i) es (?wv, ?jv)) = Bound (PyInt (Suc i + k))"
      by blast
    have later: "\<forall>m<length (e # es). Suc k < m \<longrightarrow> (e # es) ! m \<noteq> throm_name_waterset"
    proof (intro allI impI)
      fix m assume "m < length (e # es)" "Suc k < m"
      then obtain m' where "m = Suc m'" "m' < length es" "k < m'"
        by (cases m) auto
      with k(3) show "(e # es) ! m \<noteq> throm_name_waterset" by simp
    qed
    show ?thesis
      by (rule exI [of _ "Suc k"]) (use k later step in simp)
  next
    case False
    with Cons.prems have e: "e = throm_name_waterset" by simp
    have "fst (scan_entries i (e # es) (wv, jv)) = ?wv"
      unfolding step by (rule scan_fst_absent [OF False])
    with e have res: "fst (scan_entries i (e # es) (wv, jv)) = Bound (PyInt (i + 0))"
      by (simp del: scan_entries.simps)
    have later: "\<forall>m<length (e # es). 0 < m \<longrightarrow> (e # es) ! m \<noteq> throm_name_waterset"
    proof (intro allI impI)
      fix m assume "m < length (e # es)" "0 < m"
      then obtain m' where "m = Suc m'" "m' < length es"
        by (cases m) auto
      with False show "(e # es) ! m \<noteq> throm_name_waterset"
        by (metis nth_Cons_Suc nth_mem)
    qed
    show ?thesis
      by (rule exI [of _ 0]) (use e later res in simp)
  qed
qed

lemma scan_snd_last:
  "throm_name_jacsset \<in> set es \<Longrightarrow>
     \<exists>k<length es. es ! k = throm_name_jacsset \<and>
        (\<forall>m<length es. k < m \<longrightarrow> es ! m \<noteq> throm_name_jacsset) \<and>
        snd (scan_entries i es (wv, jv)) = Bound (PyInt (i + k))"
proof (induction es arbitrary: i wv jv)
  case Nil
  then show ?case by simp
next
  case (Cons e es)
  let ?wv = "if e = throm_name_waterset then Bound (PyInt i) else wv"
  let ?jv = "if e = throm_name_jacsset then Bound (PyInt i) else jv"
  have step: "scan_entries i (e # es) (wv, jv) = scan_entries (Suc i) es (?wv, ?jv)"
    by simp
  show ?case
  proof (cases "throm_name_jacsset \<in> set es")
    case True
    from Cons.IH [OF True, of "Suc i" ?wv ?jv]
    obtain k where k: "k < length es" "es ! k = throm_name_jacsset"
      "\<forall>m<length es. k < m \<longrightarrow> es ! m \<noteq> throm_name_jacsset"
      "snd (scan_entries (Suc i) es (?wv, ?jv)) = Bound (PyInt (Suc i + k))"
      by blast
    have later: "\<forall>m<length (e # es). Suc k < m \<longrightarrow> (e # es) ! m \<noteq> throm_name_jacsset"
    proof (intro allI impI)
      fix m assume "m < length (e # es)" "Suc k < m"
      then obtain m' where "m = Suc m'" "m' < length es" "k < m'"
        by (cases m) auto
      with k(3) show "(e # es) ! m \<noteq> throm_name_jacsset" by simp
    qed
    show ?thesis
      by (rule exI [of _ "Suc k"]) (use k later step in simp)
  next
    case False
    with Cons.prems have e: "e = throm_name_jacsset" by simp
    have "snd (scan_entries i (e # es) (wv, jv)) = ?jv"
      unfolding step by (rule scan_snd_absent [OF False])
    with e have res: "snd (scan_entries i (e # es) (wv, jv)) = Bound (PyInt (i + 0))"
      by (simp del: scan_entries.simps)
    have later: "\<forall>m<length (e # es). 0 < m \<longrightarrow> (e # es) ! m \<noteq> throm_name_jacsset"
    proof (intro allI impI)
      fix m assume "m < length (e # es)" "0 < m"
      then obtain m' where "m = Suc m'" "m' < length es"
        by (cases m) auto
      with False show "(e # es) ! m \<noteq> throm_name_jacsset"
        by (metis nth_Cons_Suc nth_mem)
    qed
    show ?thesis
      by (rule exI [of _ 0]) (use e later res in simp)
  qed
qed

lemma names_differ: "throm_name_waterset \<noteq> throm_name_jacsset"
  by (simp add: throm_name_waterset_def throm_name_jacsset_def)

text \<open>The scan binds a variable to an index or leaves it as it was.\<close>

lemma scan_never_None:
  "wv \<noteq> Bound PyNone \<Longrightarrow> jv \<noteq> Bound PyNone \<Longrightarrow>
     fst (scan_entries i es (wv, jv)) \<noteq> Bound PyNone \<and>
     snd (scan_entries i es (wv, jv)) \<noteq> Bound PyNone"
  by (induction es arbitrary: i wv jv) auto

lemma correct_thrombin_last:
  assumes w: "throm_name_waterset \<in> set (entries r)"
    and j: "throm_name_jacsset \<in> set (entries r)"
    and len: "length (number_of_compounds r) = length (entries r)"
  shows "\<exists>wi ji.
      wi < length (entries r) \<and> entries r ! wi = throm_name_waterset \<and>
      (\<forall>k<length (entries r). wi < k \<longrightarrow> entries r ! k \<noteq> throm_name_waterset) \<and>
      ji < length (entries r) \<and> entries r ! ji = throm_name_jacsset \<and>
      (\<forall>k<length (entries r). ji < k \<longrightarrow> entries r ! k \<noteq> throm_name_jacsset) \<and>
      correct_thrombin r =
        Inr (r\<lparr>number_of_compounds :=
               (number_of_compounds r)[wi := number_of_compounds r ! wi - number_of_compounds r ! ji]\<rparr>)"
proof -
  obtain wi where wi: "wi < length (entries r)" "entries r ! wi = throm_name_waterset"
    "\<forall>k<length (entries r). wi < k \<longrightarrow> entries r ! k \<noteq> throm_name_waterset"
    "fst (scan_entries 0 (entries r) (Unbound, Unbound)) = Bound (PyInt (0 + wi))"
    using scan_fst_last [OF w, of 0 Unbound Unbound] by blast
  obtain ji where ji: "ji < length (entries r)" "entries r ! ji = throm_name_jacsset"
    "\<forall>k<length (entries r). ji < k \<longrightarrow> entries r ! k \<noteq> throm_name_jacsset"
    "snd (scan_entries 0 (entries r) (Unbound, Unbound)) = Bound (PyInt (0 + ji))"
    using scan_snd_last [OF j, of 0 Unbound Unbound] by blast
  have "correct_thrombin r =
        Inr (r\<lparr>number_of_compounds :=
               (number_of_compounds r)[wi := number_of_compounds r ! wi - number_of_compounds r ! ji]\<rparr>)"
    using wi(1,4) ji(1,4) len
    by (simp add: correct_thrombin_def guarded_correction_def subtract_compounds_def Let_def)
  with wi(1-3) ji(1-3) show ?thesis by blast
qed

lemma correct_thrombin_unbound:
  assumes "throm_name_waterset \<notin> set (entries r) \<or> throm_name_jacsset \<notin> set (entries r)"
  shows "correct_thrombin r =
     Inl (NameError (if throm_name_waterset \<notin> set (entries r)
                     then ''throm_name_waterset_ind'' else ''throm_name_jacsset_ind''))"
proof (cases "throm_name_waterset \<in> set (entries r)")
  case False
  then have "fst (scan_entries 0 (entries r) (Unbound, Unbound)) = Unbound"
    by (rule scan_fst_absent)
  with False show ?thesis
    by (simp add: correct_thrombin_def guarded_correction_def)
next
  case True
  with assms have "throm_name_jacsset \<notin> set (entries r)" by simp
  then have s: "snd (scan_entries 0 (entries r) (Unbound, Unbound)) = Unbound"
    by (rule scan_snd_absent)
  obtain wi where "fst (scan_entries 0 (entries r) (Unbound, Unbound)) = Bound (PyInt (0 + wi))"
    using scan_fst_last [OF True, of 0 Unbound Unbound] by blast
  with s True show ?thesis
    by (simp add: correct_thrombin_def guarded_correction_def)
qed

section \<open>The run as a whole\<close>

lemma new_events_append: "trace w' = trace w @ es \<Longrightarrow> new_events w w' = es"
  by (simp add: new_events_def)

lemma new_events_emit [simp]: "new_events w (emit es w) = es"
  by (simp add: new_events_def)

lemma collect_files_eq:
  "collect_files a w =
     (concat (map (\<lambda>e. if isdir (fs w) e then glob_paths (fs w) e (format_ext (ext a)) else [])
                (glob_paths (fs w) (upper_dir a) [])),
      emit (Glob (upper_dir a @ ''/*'') #
            concat (map (\<lambda>e. IsDir e # (if isdir (fs w) e then [Glob (e @ ''/*'' @ format_ext (ext a))] else []))
                      (glob_paths (fs w) (upper_dir a) []))) w)"
  by (simp add: collect_files_def py_glob_def collect_loop_eq cong: if_cong)


lemma collect_files_reads: "\<forall>e\<in>set (new_events w (snd (collect_files a w))). is_read e"
  by (auto simp: collect_files_eq split: if_splits)

lemma print_tables_eq:
  "print_tables a w =
     (if latex_tables a \<and> ext a = Some ''fmp''
      then emit ([Print ''Individual set summaries'', Print ''------------------------'',
                  Glob (upper_dir a @ ''/*'')] @
                 concat (map (\<lambda>e. IsDir e #
                    (if isdir (fs w) e
                     then Glob (e @ ''/*fmp'') #
                          (if glob_paths (fs w) e ''fmp'' \<noteq> []
                           then [Print e, PrintLatexTable (glob_paths (fs w) e ''fmp''), Print '''', Print '''']
                           else [])
                     else [])) (glob_paths (fs w) (upper_dir a) []))) w
      else if latex_tables a then emit [Print latex_notice] w
      else w)"
  by (simp add: print_tables_def py_glob_def latex_loop_eq format_ext_def Let_def cong: if_cong)





lemma new_events_self [simp]: "new_events w w = []"
  by (simp add: new_events_def)

lemma collect_files_emit:
  "collect_files a w = (fst (collect_files a w), emit (new_events w (snd (collect_files a w))) w)"
  by (simp add: collect_files_eq)

lemma print_tables_emit:
  "fs w' = fs w \<Longrightarrow> print_tables a w' = emit (new_events w (print_tables a w)) w'"
  by (simp add: print_tables_eq cong: if_cong)

lemma main_success:
  assumes files: "files = fst (collect_files a w)"
    and parsed: "ext a = Some ''fmp'' \<and> parse_fep_data m files = Inr r \<or>
                 ext a = Some ''csv'' \<and> parse_fep_data_from_csv m files = Inr r"
    and corr: "correct_thrombin r = Inr r'"
  shows "main m a w =
     (Inr (),
      emit (new_events w (snd (collect_files a w)) @
            [if ext a = Some ''fmp'' then ParseFepData files else ParseFepDataFromCsv files,
             Print ''FEP+ benchmark summary'', Print ''-----------------------'',
             SummarizeFepError r', Print ''''] @
            new_events w (print_tables a w)) w)"
proof -
  define cev where "cev = new_events w (snd (collect_files a w))"
  define tev where "tev = new_events w (print_tables a w)"
  define pev :: "'a event"
    where "pev = (if ext a = Some ''fmp'' then ParseFepData files else ParseFepDataFromCsv files)"
  have c: "collect_files a w = (files, emit cev w)"
    using collect_files_emit [of a w] files by (simp add: cev_def)
  have p: "parse_step m a files (emit cev w) = (Inr r, emit [pev] (emit cev w))"
    using parsed by (auto simp: parse_step_def pev_def)
  have t: "print_tables a (print_summary r' (emit [pev] (emit cev w))) =
           emit tev (print_summary r' (emit [pev] (emit cev w)))"
    unfolding tev_def by (rule print_tables_emit) (simp add: print_summary_def)
  have "main m a w = (Inr (), print_tables a (print_summary r' (emit [pev] (emit cev w))))"
    by (simp add: main_def c p corr del: emit_emit)
  then have "main m a w = (Inr (), emit tev (print_summary r' (emit [pev] (emit cev w))))"
    by (simp only: t)
  also have "emit tev (print_summary r' (emit [pev] (emit cev w))) =
      emit (cev @ [pev, Print ''FEP+ benchmark summary'', Print ''-----------------------'',
             SummarizeFepError r', Print ''''] @ tev) w"
    by (simp add: print_summary_def)
  finally show ?thesis
    by (simp only: cev_def tev_def pev_def)
qed

lemma main_correction_fails:
  assumes files: "files = fst (collect_files a w)"
    and parsed: "ext a = Some ''fmp'' \<and> parse_fep_data m files = Inr r \<or>
                 ext a = Some ''csv'' \<and> parse_fep_data_from_csv m files = Inr r"
    and corr: "correct_thrombin r = Inl e"
  shows "main m a w =
     (Inl e,
      emit (new_events w (snd (collect_files a w)) @
            [if ext a = Some ''fmp'' then ParseFepData files else ParseFepDataFromCsv files]) w)"
proof -
  define cev where "cev = new_events w (snd (collect_files a w))"
  define pev :: "'a event"
    where "pev = (if ext a = Some ''fmp'' then ParseFepData files else ParseFepDataFromCsv files)"
  have c: "collect_files a w = (files, emit cev w)"
    using collect_files_emit [of a w] files by (simp add: cev_def)
  have p: "parse_step m a files (emit cev w) = (Inr r, emit [pev] (emit cev w))"
    using parsed by (auto simp: parse_step_def pev_def)
  have "main m a w = (Inl e, emit (cev @ [pev]) w)"
    by (simp add: main_def c p corr)
  then show ?thesis
    by (simp only: cev_def pev_def)
qed

lemma main_no_ext:
  assumes "ext a \<noteq> Some ''fmp''" "ext a \<noteq> Some ''csv''"
  shows "main m a w = (Inl (Exception (ext_message (ext a))), snd (collect_files a w))"
  using assms by (simp add: main_def parse_step_def split: prod.splits)

lemma print_tables_events:
  "\<forall>e\<in>set (new_events w (print_tables a w)). \<not> is_summary_call e \<and> \<not> is_parse_call e"
  by (auto simp: print_tables_eq split: if_splits)

lemma is_read_only:
  "is_read e \<Longrightarrow> \<not> is_print e \<and> \<not> is_summary_call e \<and> \<not> is_table_call e \<and> \<not> is_parse_call e"
  by (cases e) simp_all

lemma collect_files_no_output:
  "filter (\<lambda>e. is_print e \<or> is_summary_call e \<or> is_table_call e \<or> is_parse_call e)
     (new_events w (snd (collect_files a w))) = []"
  using collect_files_reads [of w a] is_read_only
  by (auto simp: filter_empty_conv)

lemma print_tables_no_summary:
  "filter is_summary_call (new_events w (print_tables a w)) = []"
  using print_tables_events [of w a] by (auto simp: filter_empty_conv)

lemma collect_files_no_summary:
  "filter is_summary_call (new_events w (snd (collect_files a w))) = []"
  using collect_files_reads [of w a] is_read_only
  by (auto simp: filter_empty_conv)

section \<open>The claims about the correction\<close>

text \<open>
  C1: when the parser's result names both thrombin data sets (and has one compound
  count for each entry), the run completes, and the one call of
  \<^verbatim>\<open>summarize_fep_error\<close> receives the parser's result with the count at the
  water-displacement entry's index decreased, once, by the count at the JACS entry's
  index.
\<close>

theorem thrombin_correction_applied_once:
  assumes files: "files = fst (collect_files a w)"
    and parsed: "ext a = Some ''fmp'' \<and> parse_fep_data m files = Inr r \<or>
                 ext a = Some ''csv'' \<and> parse_fep_data_from_csv m files = Inr r"
    and water: "throm_name_waterset \<in> set (entries r)"
    and jacs: "throm_name_jacsset \<in> set (entries r)"
    and len: "length (number_of_compounds r) = length (entries r)"
  shows "\<exists>wi ji.
      wi < length (entries r) \<and> entries r ! wi = throm_name_waterset \<and>
      ji < length (entries r) \<and> entries r ! ji = throm_name_jacsset \<and>
      fst (main m a w) = Inr () \<and>
      filter is_summary_call (new_events w (snd (main m a w))) =
        [SummarizeFepError
           (r\<lparr>number_of_compounds :=
                (number_of_compounds r)[wi := number_of_compounds r ! wi - number_of_compounds r ! ji]\<rparr>)]"
proof -
  from correct_thrombin_last [OF water jacs len]
  obtain wi ji where ix: "wi < length (entries r)" "entries r ! wi = throm_name_waterset"
      "ji < length (entries r)" "entries r ! ji = throm_name_jacsset"
    and corr: "correct_thrombin r =
        Inr (r\<lparr>number_of_compounds :=
               (number_of_compounds r)[wi := number_of_compounds r ! wi - number_of_compounds r ! ji]\<rparr>)"
    by blast
  have "fst (main m a w) = Inr ()"
    and "filter is_summary_call (new_events w (snd (main m a w))) =
        [SummarizeFepError
           (r\<lparr>number_of_compounds :=
                (number_of_compounds r)[wi := number_of_compounds r ! wi - number_of_compounds r ! ji]\<rparr>)]"
    by (simp_all add: main_success [OF files parsed corr] collect_files_no_summary
        print_tables_no_summary)
  with ix show ?thesis by blast
qed

lemmas run_defs = main_def collect_files_def py_glob_def glob_paths_def glob1_def listdir_def
  ishidden_def endswith_def join_def py_isdir_def isdir_def emit_def parse_step_def
  correct_thrombin_def guarded_correction_def subtract_compounds_def print_summary_def
  print_tables_def format_ext_def new_events_def throm_name_waterset_def throm_name_jacsset_def
  latex_notice_def ext_message_def Let_def

lemmas sample_defs = sample_world_def sample_fs_def sample_af_def sample_results_def
  jacs_only_af_def jacs_only_results_def hidden_world_def hidden_fs_def

theorem thrombin_correction_applied_once_witness:
  "parse_fep_data sample_af
     (fst (collect_files \<lparr>upper_dir = ''up'', ext = Some ''fmp'', latex_tables = False\<rparr> sample_world)) =
     Inr sample_results \<and>
   throm_name_waterset \<in> set (entries sample_results) \<and>
   throm_name_jacsset \<in> set (entries sample_results) \<and>
   length (number_of_compounds sample_results) = length (entries sample_results) \<and>
   (\<exists>wi ji.
      wi < length (entries sample_results) \<and> entries sample_results ! wi = throm_name_waterset \<and>
      ji < length (entries sample_results) \<and> entries sample_results ! ji = throm_name_jacsset \<and>
      fst (main sample_af \<lparr>upper_dir = ''up'', ext = Some ''fmp'', latex_tables = False\<rparr> sample_world) = Inr () \<and>
      filter is_summary_call
        (new_events sample_world
           (snd (main sample_af \<lparr>upper_dir = ''up'', ext = Some ''fmp'', latex_tables = False\<rparr> sample_world))) =
        [SummarizeFepError
           (sample_results\<lparr>number_of_compounds :=
                (number_of_compounds sample_results)
                  [wi := number_of_compounds sample_results ! wi - number_of_compounds sample_results ! ji]\<rparr>)])"
proof -
  let ?a = "\<lparr>upper_dir = ''up'', ext = Some ''fmp'', latex_tables = False\<rparr>"
  have p: "parse_fep_data sample_af (fst (collect_files ?a sample_world)) = Inr sample_results"
    by (simp add: sample_af_def)
  have w: "throm_name_waterset \<in> set (entries sample_results)"
    and j: "throm_name_jacsset \<in> set (entries sample_results)"
    and l: "length (number_of_compounds sample_results) = length (entries sample_results)"
    by (simp_all add: sample_results_def)
  have e: "ext ?a = Some ''fmp'' \<and>
      parse_fep_data sample_af (fst (collect_files ?a sample_world)) = Inr sample_results \<or>
      ext ?a = Some ''csv'' \<and>
      parse_fep_data_from_csv sample_af (fst (collect_files ?a sample_world)) = Inr sample_results"
    using p by simp
  from thrombin_correction_applied_once [OF refl e w j l] p w j l
  show ?thesis by blast
qed

text \<open>
  C10: when a thrombin name occurs more than once among the entries, the correction reads
  and writes at the index of its last occurrence.
\<close>

theorem correction_uses_last_occurrence:
  assumes "throm_name_waterset \<in> set (entries r)"
    and "throm_name_jacsset \<in> set (entries r)"
    and "length (number_of_compounds r) = length (entries r)"
  shows "\<exists>wi ji.
      wi < length (entries r) \<and> entries r ! wi = throm_name_waterset \<and>
      (\<forall>k<length (entries r). wi < k \<longrightarrow> entries r ! k \<noteq> throm_name_waterset) \<and>
      ji < length (entries r) \<and> entries r ! ji = throm_name_jacsset \<and>
      (\<forall>k<length (entries r). ji < k \<longrightarrow> entries r ! k \<noteq> throm_name_jacsset) \<and>
      correct_thrombin r =
        Inr (r\<lparr>number_of_compounds :=
               (number_of_compounds r)[wi := number_of_compounds r ! wi - number_of_compounds r ! ji]\<rparr>)"
  using assms by (rule correct_thrombin_last)

theorem correction_uses_last_occurrence_witness:
  "throm_name_waterset \<in> set (entries sample_results) \<and>
   throm_name_jacsset \<in> set (entries sample_results) \<and>
   length (number_of_compounds sample_results) = length (entries sample_results) \<and>
   entries sample_results ! 0 = throm_name_waterset \<and>
   entries sample_results ! 2 = throm_name_waterset \<and>
   (\<exists>wi ji.
      wi < length (entries sample_results) \<and> entries sample_results ! wi = throm_name_waterset \<and>
      (\<forall>k<length (entries sample_results). wi < k \<longrightarrow> entries sample_results ! k \<noteq> throm_name_waterset) \<and>
      ji < length (entries sample_results) \<and> entries sample_results ! ji = throm_name_jacsset \<and>
      (\<forall>k<length (entries sample_results). ji < k \<longrightarrow> entries sample_results ! k \<noteq> throm_name_jacsset) \<and>
      correct_thrombin sample_results =
        Inr (sample_results\<lparr>number_of_compounds :=
               (number_of_compounds sample_results)
                 [wi := number_of_compounds sample_results ! wi - number_of_compounds sample_results ! ji]\<rparr>)) \<and>
   correct_thrombin sample_results = Inr (sample_results\<lparr>number_of_compounds := [10, 3, 15, 5]\<rparr>)"
proof -
  have w: "throm_name_waterset \<in> set (entries sample_results)"
    and j: "throm_name_jacsset \<in> set (entries sample_results)"
    and l: "length (number_of_compounds sample_results) = length (entries sample_results)"
    and o: "entries sample_results ! 0 = throm_name_waterset"
      "entries sample_results ! 2 = throm_name_waterset"
    by (simp_all add: sample_results_def)
  have v: "correct_thrombin sample_results = Inr (sample_results\<lparr>number_of_compounds := [10, 3, 15, 5]\<rparr>)"
    by (simp add: run_defs sample_results_def)
  from correction_uses_last_occurrence [OF w j l] w j l o v
  show ?thesis by blast
qed

text \<open>
  C4: on a parse result that names both thrombin data sets (with one compound count for
  each entry), the correction changes nothing but the one element of
  \<^verbatim>\<open>results['number of compounds']\<close> at the index of a water-displacement entry: the
  entries, every other key, the length of the list and every other element stay as they
  were.
\<close>

theorem correction_changes_one_element:
  assumes "throm_name_waterset \<in> set (entries r)"
    and "throm_name_jacsset \<in> set (entries r)"
    and "length (number_of_compounds r) = length (entries r)"
  shows "\<exists>r' wi.
      correct_thrombin r = Inr r' \<and>
      wi < length (entries r) \<and> entries r ! wi = throm_name_waterset \<and>
      entries r' = entries r \<and>
      other_keys r' = other_keys r \<and>
      length (number_of_compounds r') = length (number_of_compounds r) \<and>
      (\<forall>k<length (number_of_compounds r). k \<noteq> wi \<longrightarrow>
          number_of_compounds r' ! k = number_of_compounds r ! k)"
proof -
  from correct_thrombin_last [OF assms]
  obtain wi ji where wi: "wi < length (entries r)" "entries r ! wi = throm_name_waterset"
    and corr: "correct_thrombin r =
        Inr (r\<lparr>number_of_compounds :=
               (number_of_compounds r)[wi := number_of_compounds r ! wi - number_of_compounds r ! ji]\<rparr>)"
    by blast
  let ?r' = "r\<lparr>number_of_compounds :=
               (number_of_compounds r)[wi := number_of_compounds r ! wi - number_of_compounds r ! ji]\<rparr>"
  have "entries ?r' = entries r" "other_keys ?r' = other_keys r"
    "length (number_of_compounds ?r') = length (number_of_compounds r)"
    "\<forall>k<length (number_of_compounds r). k \<noteq> wi \<longrightarrow>
          number_of_compounds ?r' ! k = number_of_compounds r ! k"
    by simp_all
  with wi corr show ?thesis by blast
qed

theorem correction_changes_one_element_witness:
  "throm_name_waterset \<in> set (entries sample_results) \<and>
   throm_name_jacsset \<in> set (entries sample_results) \<and>
   length (number_of_compounds sample_results) = length (entries sample_results) \<and>
   (\<exists>r' wi.
      correct_thrombin sample_results = Inr r' \<and>
      wi < length (entries sample_results) \<and> entries sample_results ! wi = throm_name_waterset \<and>
      entries r' = entries sample_results \<and>
      other_keys r' = other_keys sample_results \<and>
      length (number_of_compounds r') = length (number_of_compounds sample_results) \<and>
      (\<forall>k<length (number_of_compounds sample_results). k \<noteq> wi \<longrightarrow>
          number_of_compounds r' ! k = number_of_compounds sample_results ! k))"
proof -
  have w: "throm_name_waterset \<in> set (entries sample_results)"
    and j: "throm_name_jacsset \<in> set (entries sample_results)"
    and l: "length (number_of_compounds sample_results) = length (entries sample_results)"
    by (simp_all add: sample_results_def)
  from correction_changes_one_element [OF w j l] w j l
  show ?thesis by blast
qed


section \<open>The claims about the run\<close>

text \<open>
  C3: when the parser's result lacks one of the two thrombin names, the run ends at the
  guard of line 94 with a NameError for the index variable that was never bound (the
  water-displacement one when that name is missing, else the JACS one). Nothing has been
  printed and no summary or table call has been made. The scan never binds a variable
  to \<^verbatim>\<open>None\<close>, so the guard's comparison never sees it.
\<close>

theorem missing_dataset_raises_name_error:
  assumes files: "files = fst (collect_files a w)"
    and parsed: "ext a = Some ''fmp'' \<and> parse_fep_data m files = Inr r \<or>
                 ext a = Some ''csv'' \<and> parse_fep_data_from_csv m files = Inr r"
    and missing: "throm_name_waterset \<notin> set (entries r) \<or> throm_name_jacsset \<notin> set (entries r)"
  shows "fst (main m a w) =
           Inl (NameError (if throm_name_waterset \<notin> set (entries r)
                           then ''throm_name_waterset_ind'' else ''throm_name_jacsset_ind'')) \<and>
         filter (\<lambda>e. is_print e \<or> is_summary_call e \<or> is_table_call e)
           (new_events w (snd (main m a w))) = [] \<and>
         fst (scan_entries 0 (entries r) (Unbound, Unbound)) \<noteq> Bound PyNone \<and>
         snd (scan_entries 0 (entries r) (Unbound, Unbound)) \<noteq> Bound PyNone"
proof -
  let ?e = "NameError (if throm_name_waterset \<notin> set (entries r)
                       then ''throm_name_waterset_ind'' else ''throm_name_jacsset_ind'')"
  have corr: "correct_thrombin r = Inl ?e"
    using missing by (rule correct_thrombin_unbound)
  note run = main_correction_fails [OF files parsed corr]
  have reads: "filter (\<lambda>e. is_print e \<or> is_summary_call e \<or> is_table_call e)
      (new_events w (snd (collect_files a w))) = []"
    using collect_files_reads [of w a] is_read_only by (auto simp: filter_empty_conv)
  have "fst (main m a w) = Inl ?e"
    by (simp add: run)
  moreover have "filter (\<lambda>e. is_print e \<or> is_summary_call e \<or> is_table_call e)
      (new_events w (snd (main m a w))) = []"
    by (simp add: run reads)
  moreover have "fst (scan_entries 0 (entries r) (Unbound, Unbound)) \<noteq> Bound PyNone \<and>
      snd (scan_entries 0 (entries r) (Unbound, Unbound)) \<noteq> Bound PyNone"
    by (rule scan_never_None) simp_all
  ultimately show ?thesis by blast
qed

theorem missing_dataset_raises_name_error_witness:
  "parse_fep_data jacs_only_af
     (fst (collect_files \<lparr>upper_dir = ''up'', ext = Some ''fmp'', latex_tables = True\<rparr> sample_world)) =
     Inr jacs_only_results \<and>
   throm_name_waterset \<notin> set (entries jacs_only_results) \<and>
   fst (main jacs_only_af \<lparr>upper_dir = ''up'', ext = Some ''fmp'', latex_tables = True\<rparr> sample_world) =
     Inl (NameError ''throm_name_waterset_ind'') \<and>
   filter (\<lambda>e. is_print e \<or> is_summary_call e \<or> is_table_call e)
     (new_events sample_world
        (snd (main jacs_only_af \<lparr>upper_dir = ''up'', ext = Some ''fmp'', latex_tables = True\<rparr> sample_world))) = [] \<and>
   fst (scan_entries 0 (entries jacs_only_results) (Unbound, Unbound)) \<noteq> Bound PyNone \<and>
   snd (scan_entries 0 (entries jacs_only_results) (Unbound, Unbound)) \<noteq> Bound PyNone"
proof -
  let ?a = "\<lparr>upper_dir = ''up'', ext = Some ''fmp'', latex_tables = True\<rparr>"
  have p: "parse_fep_data jacs_only_af (fst (collect_files ?a sample_world)) = Inr jacs_only_results"
    by (simp add: jacs_only_af_def)
  have n: "throm_name_waterset \<notin> set (entries jacs_only_results)"
    by (simp add: jacs_only_results_def throm_name_waterset_def throm_name_jacsset_def)
  have e: "ext ?a = Some ''fmp'' \<and>
      parse_fep_data jacs_only_af (fst (collect_files ?a sample_world)) = Inr jacs_only_results \<or>
      ext ?a = Some ''csv'' \<and>
      parse_fep_data_from_csv jacs_only_af (fst (collect_files ?a sample_world)) = Inr jacs_only_results"
    using p by simp
  have d: "throm_name_waterset \<notin> set (entries jacs_only_results) \<or>
      throm_name_jacsset \<notin> set (entries jacs_only_results)"
    using n by simp
  from missing_dataset_raises_name_error [OF refl e d] p n
  show ?thesis by simp
qed

text \<open>
  C5: a run in which parsing and correction succeed does its steps in one fixed order.
  The trace is: the reads of the file collection; then the one parser call, on the
  collected files; then the two header lines, the call of \<^verbatim>\<open>summarize_fep_error\<close> on the
  corrected result and an empty line; then whatever the table section adds, which holds
  no further parser or summary call.
\<close>

theorem run_steps_in_order:
  assumes files: "files = fst (collect_files a w)"
    and parsed: "ext a = Some ''fmp'' \<and> parse_fep_data m files = Inr r \<or>
                 ext a = Some ''csv'' \<and> parse_fep_data_from_csv m files = Inr r"
    and corr: "correct_thrombin r = Inr r'"
  shows "fst (main m a w) = Inr () \<and>
         trace (snd (main m a w)) =
           trace w @ new_events w (snd (collect_files a w)) @
           [if ext a = Some ''fmp'' then ParseFepData files else ParseFepDataFromCsv files,
            Print ''FEP+ benchmark summary'', Print ''-----------------------'',
            SummarizeFepError r', Print ''''] @
           new_events w (print_tables a w) \<and>
         (\<forall>e\<in>set (new_events w (snd (collect_files a w))). is_read e) \<and>
         (\<forall>e\<in>set (new_events w (print_tables a w)). \<not> is_summary_call e \<and> \<not> is_parse_call e)"
  using collect_files_reads [of w a] print_tables_events [of w a]
  by (simp add: main_success [OF files parsed corr])

theorem run_steps_in_order_witness:
  "parse_fep_data sample_af
     (fst (collect_files \<lparr>upper_dir = ''up'', ext = Some ''fmp'', latex_tables = False\<rparr> sample_world)) =
     Inr sample_results \<and>
   correct_thrombin sample_results = Inr (sample_results\<lparr>number_of_compounds := [10, 3, 15, 5]\<rparr>) \<and>
   fst (main sample_af \<lparr>upper_dir = ''up'', ext = Some ''fmp'', latex_tables = False\<rparr> sample_world) = Inr () \<and>
   trace (snd (main sample_af \<lparr>upper_dir = ''up'', ext = Some ''fmp'', latex_tables = False\<rparr> sample_world)) =
     [Glob ''up/*'', IsDir ''up/g1'', Glob ''up/g1/*fmp'', IsDir ''up/n.txt'', IsDir ''up/g2'',
      Glob ''up/g2/*fmp'', ParseFepData [''up/g1/a.fmp''],
      Print ''FEP+ benchmark summary'', Print ''-----------------------'',
      SummarizeFepError (sample_results\<lparr>number_of_compounds := [10, 3, 15, 5]\<rparr>), Print '''']"
proof -
  let ?a = "\<lparr>upper_dir = ''up'', ext = Some ''fmp'', latex_tables = False\<rparr>"
  have p: "parse_fep_data sample_af (fst (collect_files ?a sample_world)) = Inr sample_results"
    by (simp add: sample_af_def)
  have c: "correct_thrombin sample_results = Inr (sample_results\<lparr>number_of_compounds := [10, 3, 15, 5]\<rparr>)"
    by (simp add: run_defs sample_results_def)
  have e: "ext ?a = Some ''fmp'' \<and>
      parse_fep_data sample_af (fst (collect_files ?a sample_world)) = Inr sample_results \<or>
      ext ?a = Some ''csv'' \<and>
      parse_fep_data_from_csv sample_af (fst (collect_files ?a sample_world)) = Inr sample_results"
    using p by simp
  have f: "fst (collect_files ?a sample_world) = [''up/g1/a.fmp'']"
    by (simp add: run_defs sample_world_def sample_fs_def)
  have n: "new_events sample_world (snd (collect_files ?a sample_world)) =
      [Glob ''up/*'', IsDir ''up/g1'', Glob ''up/g1/*fmp'', IsDir ''up/n.txt'', IsDir ''up/g2'',
       Glob ''up/g2/*fmp'']"
    by (simp add: run_defs sample_world_def sample_fs_def)
  have t: "new_events sample_world (print_tables ?a sample_world) = []"
    by (simp add: print_tables_def)
  have w: "trace sample_world = []"
    by (simp add: sample_world_def)
  from run_steps_in_order [OF refl e c] p c
  show ?thesis by (simp add: f n t w)
qed



text \<open>
  C9: when \<^verbatim>\<open>-e/--ext\<close> is omitted, \<^verbatim>\<open>main\<close> first collects files, globbing each
  directory entry with the pattern \<^verbatim>\<open>*None\<close>, and then raises the exception of line 83.
  The trace holds the reads of the collection and nothing else: no parser call, no
  printed line.
\<close>

theorem omitted_ext_raises:
  assumes "ext a = None"
  shows \<open>main m a w =
     (Inl (Exception ''Only "fmp" and "csv" are accessible file extenstions. You have entered None.''),
      emit (Glob (upper_dir a @ ''/*'') #
            concat (map (\<lambda>e. IsDir e # (if isdir (fs w) e then [Glob (e @ ''/*None'')] else []))
                      (glob_paths (fs w) (upper_dir a) []))) w)\<close>
  using assms
  by (simp add: main_no_ext collect_files_eq ext_message_def format_ext_def cong: if_cong)

theorem omitted_ext_raises_witness:
  \<open>main sample_af \<lparr>upper_dir = ''up'', ext = None, latex_tables = True\<rparr> sample_world =
     (Inl (Exception ''Only "fmp" and "csv" are accessible file extenstions. You have entered None.''),
      \<lparr>fs = sample_fs,
       trace = [Glob ''up/*'', IsDir ''up/g1'', Glob ''up/g1/*None'', IsDir ''up/n.txt'',
                IsDir ''up/g2'', Glob ''up/g2/*None'']\<rparr>)\<close>
proof -
  let ?a = "\<lparr>upper_dir = ''up'', ext = None, latex_tables = True\<rparr>"
  have e: "ext ?a = None" by simp
  have g: "glob_paths (fs sample_world) ''up'' [] = [''up/g1'', ''up/n.txt'', ''up/g2'']"
    by (simp add: run_defs sample_world_def sample_fs_def)
  have d: "isdir (fs sample_world) ''up/g1''" "\<not> isdir (fs sample_world) ''up/n.txt''"
    "isdir (fs sample_world) ''up/g2''"
    by (simp_all add: isdir_def sample_world_def sample_fs_def)
  from omitted_ext_raises [OF e, of sample_af sample_world]
  show ?thesis
    by (simp add: g d) (simp add: emit_def sample_world_def)
qed

end
